theory Spec2Isabelle
  imports Main
begin

section \<open>Data model\<close>

text \<open>
  The Canvas \<open>Assignment\<close> object, restricted to the fields the script reads. Every field
  is optional in the client's type (\<open>id?: number\<close>, \<open>name?: string\<close>, ...), so each one is an
  \<open>option\<close>; \<open>None\<close> stands for \<open>undefined\<close> and \<open>null\<close> alike. Canvas ids are integers,
  so the JavaScript number of \<open>id\<close> and \<open>course_id\<close> is an \<open>int\<close>.
\<close>

record assignment =
  id' :: "int option"
  name :: "string option"
  due_at :: "string option"
  course_id :: "int option"
  html_url :: "string option"

text \<open>The object \<open>{...assignment, pageId}\<close> built in the middle of \<open>updatedEntries\<close>.\<close>

record assignment_with_page = assignment +
  pageId' :: string

text \<open>
  What \<open>notion.databases.query\<close> returns: a partial page has an id only, a full page has
  properties, each tagged with its type. The value of a number property may be \<open>null\<close>;
  the numbers are taken to be integers, as the ids they hold are.
\<close>

datatype property_value =
    Number "int option"
  | Title string
  | Rich_text string
  | Date string
  | Url "string option"

datatype page =
    PartialPage string
  | FullPage string "(string \<times> property_value) list"

text \<open>One element of \<open>assignmentIds\<close>, the lookup of \<open>getExistingAssignments\<close>.\<close>

record entry =
  pageId :: string
  assignmentId :: string

record existing =
  pageIds :: "string list"
  assignmentIds :: "entry list"

text \<open>The object returned by \<open>assignmentToNewPage\<close>, one field per Notion property.\<close>

record new_page =
  Name :: string
  Due_Date :: string
  Assignment_Id :: "int option"
  Subject_Id :: string
  Assignment_URL :: "string option"

text \<open>The object returned by \<open>assignmentToUpdatedPage\<close>.\<close>

record updated_properties =
  upd_Due_Date :: string
  upd_Assignment_URL :: "string option"

record updated_page =
  page_id :: string
  properties :: updated_properties

text \<open>The arguments of the two write calls of the driver.\<close>

record create_request =
  database_id :: string
  create_properties :: new_page

record update_request =
  request_page_id :: string
  request_properties :: "(string \<times> property_value) list"

datatype error = TypeError | ENOENT | ENOTDIR | EISDIR | EEXIST | PromptRejected

section \<open>Number.prototype.toString on integers\<close>

text \<open>
  The decimal digits of an integer, with a minus sign for a negative one. This is what
  \<open>toString\<close> gives for the integers below \<open>10\<^sup>2\<^sup>1\<close> in absolute value, which every
  id is; from there on JavaScript prints an exponent. The proofs use of the digits only
  that \<open>0\<close> is the one number written \<open>0\<close>.
\<close>

definition digit_char :: "nat \<Rightarrow> char" where
  "digit_char d = ''0123456789'' ! d"

fun digits :: "nat \<Rightarrow> string" where
  "digits n = (if n < 10 then [digit_char n] else digits (n div 10) @ [digit_char (n mod 10)])"

declare digits.simps [simp del]

definition toString :: "int \<Rightarrow> string" where
  "toString n = (if n < 0 then CHR ''-'' # digits (nat (- n)) else digits (nat n))"

section \<open>Reading the existing pages\<close>

fun hasProperties :: "page \<Rightarrow> bool" where
  "hasProperties (PartialPage i) = False"
| "hasProperties (FullPage i ps) = True"

fun page_ident :: "page \<Rightarrow> string" where
  "page_ident (PartialPage i) = i"
| "page_ident (FullPage i ps) = i"

fun page_properties :: "page \<Rightarrow> (string \<times> property_value) list" where
  "page_properties (PartialPage i) = []"
| "page_properties (FullPage i ps) = ps"

text \<open>
  The \<open>for ... of\<close> loop of \<open>getExistingAssignments\<close>: a page whose \<open>Assignment Id\<close>
  property is missing or not of type \<open>number\<close> is skipped by \<open>continue\<close>; a number property
  is pushed only when \<open>if (assignmentIdProperty.number)\<close> holds, that is when the number is
  neither \<open>null\<close> nor \<open>0\<close>.
\<close>

fun collectAssignmentIds :: "page list \<Rightarrow> entry list" where
  "collectAssignmentIds [] = []"
| "collectAssignmentIds (p # ps) =
     (case map_of (page_properties p) ''Assignment Id'' of
        Some (Number (Some n)) \<Rightarrow>
          (if n \<noteq> 0
           then \<lparr>pageId = page_ident p, assignmentId = toString n\<rparr> # collectAssignmentIds ps
           else collectAssignmentIds ps)
      | _ \<Rightarrow> collectAssignmentIds ps)"

definition getExistingAssignments :: "page list \<Rightarrow> existing" where
  "getExistingAssignments results =
     (let pagesWithProperties = filter hasProperties results
      in \<lparr>pageIds = map page_ident pagesWithProperties,
          assignmentIds = collectAssignmentIds pagesWithProperties\<rparr>)"

text \<open>
  Two readings of a page's \<open>Assignment Id\<close> property, used to state what the loop of
  \<open>getExistingAssignments\<close> does with a page: whether the property is of type \<open>number\<close>
  (the test before \<open>continue\<close>), and the number the loop pushes for the page, if any.
\<close>

definition numberTyped :: "page \<Rightarrow> bool" where
  "numberTyped p =
     (case map_of (page_properties p) ''Assignment Id'' of Some (Number n) \<Rightarrow> True | _ \<Rightarrow> False)"

definition pushedNumber :: "page \<Rightarrow> int option" where
  "pushedNumber p =
     (case map_of (page_properties p) ''Assignment Id'' of
        Some (Number (Some n)) \<Rightarrow> if n \<noteq> 0 then Some n else None
      | _ \<Rightarrow> None)"

section \<open>Payloads\<close>

text \<open>
  \<open>new Date().toISOString()\<close> reads the wall clock; the reading is the parameter \<open>now\<close>. It
  is used only when \<open>due_at\<close> is \<open>null\<close> or \<open>undefined\<close>. The cast \<open>assignment.id as number\<close>
  is erased when the script runs, so a missing id stays missing in the payload.
\<close>

definition assignmentToNewPage :: "string \<Rightarrow> 'a assignment_scheme \<Rightarrow> new_page" where
  "assignmentToNewPage now a =
     \<lparr>Name = (case name a of None \<Rightarrow> ''Untitled'' | Some n \<Rightarrow> n),
      Due_Date = (case due_at a of None \<Rightarrow> now | Some d \<Rightarrow> d),
      Assignment_Id = id' a,
      Subject_Id = toString (case course_id a of None \<Rightarrow> 0 | Some c \<Rightarrow> c),
      Assignment_URL = html_url a\<rparr>"

definition assignmentToUpdatedPage :: "string \<Rightarrow> assignment_with_page \<Rightarrow> updated_page" where
  "assignmentToUpdatedPage now a =
     \<lparr>page_id = pageId' a,
      properties =
        \<lparr>upd_Due_Date = (case due_at a of None \<Rightarrow> now | Some d \<Rightarrow> d),
         upd_Assignment_URL = html_url a\<rparr>\<rparr>"

section \<open>Reconciliation\<close>

definition sentinel :: string where
  "sentinel = ''SYS_EXCEPTION_GRADE''"

definition notSentinel :: "'a assignment_scheme \<Rightarrow> bool" where
  "notSentinel a = (name a \<noteq> Some sentinel)"

text \<open>
  The callback \<open>assignmentObj.assignmentId === assignment.id?.toString()\<close>: with no id the
  right-hand side is \<open>undefined\<close>, which no string equals.
\<close>

definition matches :: "'a assignment_scheme \<Rightarrow> entry \<Rightarrow> bool" where
  "matches a e = (case id' a of None \<Rightarrow> False | Some n \<Rightarrow> assignmentId e = toString n)"

text \<open>
  The clock is read once for each call of a payload builder; \<open>clock k\<close> is the reading the
  \<open>k\<close>-th element of a mapped array would get.
\<close>

definition newEntries :: "(nat \<Rightarrow> string) \<Rightarrow> assignment list \<Rightarrow> new_page list" where
  "newEntries clock assignments =
     map (\<lambda>(k, a). assignmentToNewPage (clock k) a) (enumerate 0 (filter notSentinel assignments))"

definition withPageId :: "entry list \<Rightarrow> assignment \<Rightarrow> assignment_with_page" where
  "withPageId es a = assignment.extend a \<lparr>pageId' = pageId (the (find (matches a) es))\<rparr>"

definition updatedAssignments :: "assignment list \<Rightarrow> entry list \<Rightarrow> assignment_with_page list" where
  "updatedAssignments assignments es =
     map (withPageId es)
       (filter (\<lambda>a. notSentinel a \<and> find (matches a) es \<noteq> None) assignments)"

definition updatedEntries :: "(nat \<Rightarrow> string) \<Rightarrow> assignment list \<Rightarrow> entry list \<Rightarrow> updated_page list" where
  "updatedEntries clock assignments es =
     map (\<lambda>(k, a). assignmentToUpdatedPage (clock k) a)
       (enumerate 0 (updatedAssignments assignments es))"

text \<open>
  Whether an id, written as a string, is one of the keys of the lookup: the test behind
  both \<open>find\<close> in \<open>updatedEntries\<close> and \<open>includes\<close> in \<open>toCreate\<close>, used to state
  what the two filters keep.
\<close>

definition hasKey :: "string list \<Rightarrow> int option \<Rightarrow> bool" where
  "hasKey keys i = (case i of None \<Rightarrow> False | Some n \<Rightarrow> toString n \<in> set keys)"

text \<open>
  The filter of \<open>toCreate\<close>. Its callback evaluates
  \<open>entry["Assignment Id"].number.toString()\<close>, which throws a \<open>TypeError\<close> when the number
  is \<open>undefined\<close>; the exception leaves the filter and the whole \<open>try\<close> block.
\<close>

fun toCreateFilter :: "string list \<Rightarrow> new_page list \<Rightarrow> error + new_page list" where
  "toCreateFilter keys [] = Inr []"
| "toCreateFilter keys (entry # rest) =
     (case Assignment_Id entry of
        None \<Rightarrow> Inl TypeError
      | Some n \<Rightarrow>
          (case toCreateFilter keys rest of
             Inl e \<Rightarrow> Inl e
           | Inr kept \<Rightarrow> Inr (if toString n \<in> set keys then kept else entry # kept)))"

definition toCreate :: "(nat \<Rightarrow> string) \<Rightarrow> assignment list \<Rightarrow> entry list \<Rightarrow> error + new_page list" where
  "toCreate clock assignments es = toCreateFilter (map assignmentId es) (newEntries clock assignments)"

section \<open>The driver\<close>

text \<open>
  The two batches of writes. A creation sends the whole payload as the page's properties;
  an update sends \<open>page_id\<close> and a properties object with the single key \<open>Due Date\<close>.
\<close>

definition createRequests :: "string \<Rightarrow> new_page list \<Rightarrow> create_request list" where
  "createRequests databaseId pages =
     map (\<lambda>page. \<lparr>database_id = databaseId, create_properties = page\<rparr>) pages"

definition updateRequests :: "updated_page list \<Rightarrow> update_request list" where
  "updateRequests pages =
     map (\<lambda>page. \<lparr>request_page_id = page_id page,
                  request_properties = [(''Due Date'', Date (upd_Due_Date (properties page)))]\<rparr>)
       pages"

text \<open>
  The body of the \<open>try\<close> block from the query of the database on: \<open>results\<close> is what the
  query returned, \<open>clockNew\<close> and \<open>clockUpd\<close> are the clock readings of the two maps. An
  exception ends the run before any write is issued.
\<close>

definition sync ::
  "(nat \<Rightarrow> string) \<Rightarrow> (nat \<Rightarrow> string) \<Rightarrow> string \<Rightarrow> assignment list \<Rightarrow> page list
    \<Rightarrow> error + (create_request list \<times> update_request list)" where
  "sync clockNew clockUpd databaseId assignments results =
     (let existingAssignments = getExistingAssignments results;
          updated = updatedEntries clockUpd assignments (assignmentIds existingAssignments)
      in case toCreate clockNew assignments (assignmentIds existingAssignments) of
           Inl e \<Rightarrow> Inl e
         | Inr created \<Rightarrow> Inr (createRequests databaseId created, updateRequests updated))"

text \<open>
  A later query reflects a creation when some full page of its result carries, as its
  \<open>Assignment Id\<close> number property, the number the creation payload gave.
\<close>

definition reflectsCreation :: "page list \<Rightarrow> new_page \<Rightarrow> bool" where
  "reflectsCreation results c =
     list_ex (\<lambda>p. hasProperties p \<and>
                  map_of (page_properties p) ''Assignment Id'' = Some (Number (Assignment_Id c)))
       results"

definition reflectsCreations :: "page list \<Rightarrow> new_page list \<Rightarrow> bool" where
  "reflectsCreations results cs = list_all (reflectsCreation results) cs"

section \<open>The credential files\<close>

text \<open>
  The part of the file system the getters touch: the set of directories and the contents
  of the regular files, both keyed by path. The four operations follow Node's \<open>fs\<close>.
  \<open>writeFileSync\<close> fails with \<open>EISDIR\<close> on a directory, with \<open>ENOTDIR\<close> when a path
  above the file is a regular file, and with \<open>ENOENT\<close> when the parent directory does not
  exist. \<open>mkdirSync\<close> with \<open>recursive: true\<close> accepts a directory that is already there,
  creates the directories above it that are missing, and fails with \<open>EEXIST\<close> or
  \<open>ENOTDIR\<close> when the path or a path above it is a regular file.
\<close>

record filesystem =
  dirs :: "string set"
  files :: "string \<rightharpoonup> string"

definition path_join :: "string \<Rightarrow> string \<Rightarrow> string" where
  "path_join d f = d @ ''/'' @ f"

definition dirname :: "string \<Rightarrow> string" where
  "dirname p = rev (tl (dropWhile (\<lambda>c. c \<noteq> CHR ''/'') (rev p)))"

definition existsSync :: "filesystem \<Rightarrow> string \<Rightarrow> bool" where
  "existsSync fs p = (files fs p \<noteq> None \<or> p \<in> dirs fs)"

definition readFileSync :: "filesystem \<Rightarrow> string \<Rightarrow> error + string" where
  "readFileSync fs p =
     (case files fs p of
        Some content \<Rightarrow> Inr content
      | None \<Rightarrow> if p \<in> dirs fs then Inl EISDIR else Inl ENOENT)"

text \<open>The paths above a path, nearest first; the root is left out.\<close>

function ancestors :: "string \<Rightarrow> string list" where
  "ancestors p = (if dirname p = [] then [] else dirname p # ancestors (dirname p))"
  by pat_completeness auto
termination
proof (relation "measure length")
  show "wf (measure length)" by simp
next
  fix p :: string
  assume "dirname p \<noteq> []"
  then have "dropWhile (\<lambda>c. c \<noteq> CHR ''/'') (rev p) \<noteq> []"
    by (auto simp: dirname_def simp del: dropWhile_eq_Nil_conv)
  then have "length (tl (dropWhile (\<lambda>c. c \<noteq> CHR ''/'') (rev p))) <
      length (dropWhile (\<lambda>c. c \<noteq> CHR ''/'') (rev p))"
    by (cases "dropWhile (\<lambda>c. c \<noteq> CHR ''/'') (rev p)") simp_all
  also have "\<dots> \<le> length (rev p)" by (rule length_dropWhile_le)
  finally show "(dirname p, p) \<in> measure length" by (simp add: dirname_def)
qed

declare ancestors.simps [simp del]

definition underRegularFile :: "filesystem \<Rightarrow> string \<Rightarrow> bool" where
  "underRegularFile fs p = list_ex (\<lambda>a. files fs a \<noteq> None) (ancestors p)"

definition writeFileSync :: "filesystem \<Rightarrow> string \<Rightarrow> string \<Rightarrow> error + filesystem" where
  "writeFileSync fs p content =
     (if p \<in> dirs fs then Inl EISDIR
      else if underRegularFile fs p then Inl ENOTDIR
      else if dirname p \<in> dirs fs then Inr (fs\<lparr>files := (files fs)(p \<mapsto> content)\<rparr>)
      else Inl ENOENT)"

definition mkdirSync :: "filesystem \<Rightarrow> string \<Rightarrow> error + filesystem" where
  "mkdirSync fs d =
     (if files fs d \<noteq> None then Inl EEXIST
      else if underRegularFile fs d then Inl ENOTDIR
      else Inr (fs\<lparr>dirs := insert d (set (ancestors d) \<union> dirs fs)\<rparr>))"

text \<open>
  The three getters. \<open>config\<close> is \<open>paths.config\<close> of \<open>env-paths\<close>; \<open>answer\<close> is what the
  prompt resolves to, \<open>None\<close> when it rejects. Each returns the value and the file system
  it leaves behind.
\<close>

definition getNotionKey :: "string \<Rightarrow> string option \<Rightarrow> filesystem \<Rightarrow> error + (string \<times> filesystem)" where
  "getNotionKey config answer fs =
     (let keyPath = path_join config ''notion.key''
      in if existsSync fs keyPath
         then (case readFileSync fs keyPath of Inl e \<Rightarrow> Inl e | Inr content \<Rightarrow> Inr (content, fs))
         else (case answer of
                 None \<Rightarrow> Inl PromptRejected
               | Some key \<Rightarrow>
                   (case writeFileSync fs keyPath key of
                      Inl e \<Rightarrow> Inl e
                    | Inr fs' \<Rightarrow> Inr (key, fs'))))"

definition getCanvasKey :: "string \<Rightarrow> string option \<Rightarrow> filesystem \<Rightarrow> error + (string \<times> filesystem)" where
  "getCanvasKey config answer fs =
     (let keyPath = path_join config ''canvas.key''
      in if existsSync fs keyPath
         then (case readFileSync fs keyPath of Inl e \<Rightarrow> Inl e | Inr content \<Rightarrow> Inr (content, fs))
         else (case answer of
                 None \<Rightarrow> Inl PromptRejected
               | Some key \<Rightarrow>
                   (case mkdirSync fs config of
                      Inl e \<Rightarrow> Inl e
                    | Inr fs1 \<Rightarrow>
                        (case writeFileSync fs1 keyPath key of
                           Inl e \<Rightarrow> Inl e
                         | Inr fs2 \<Rightarrow> Inr (key, fs2)))))"

definition getCanvasUrl :: "string \<Rightarrow> string option \<Rightarrow> filesystem \<Rightarrow> error + (string \<times> filesystem)" where
  "getCanvasUrl config answer fs =
     (let keyPath = path_join config ''canvas.url''
      in if existsSync fs keyPath
         then (case readFileSync fs keyPath of Inl e \<Rightarrow> Inl e | Inr content \<Rightarrow> Inr (content, fs))
         else (case answer of
                 None \<Rightarrow> Inl PromptRejected
               | Some key \<Rightarrow>
                   (case mkdirSync fs config of
                      Inl e \<Rightarrow> Inl e
                    | Inr fs1 \<Rightarrow>
                        (case writeFileSync fs1 keyPath key of
                           Inl e \<Rightarrow> Inl e
                         | Inr fs2 \<Rightarrow> Inr (key, fs2)))))"

text \<open>The three secrets, the file each is kept in, and the getter of each.\<close>

datatype secret = NotionKey | CanvasKey | CanvasUrl

fun secretFile :: "secret \<Rightarrow> string" where
  "secretFile NotionKey = ''notion.key''"
| "secretFile CanvasKey = ''canvas.key''"
| "secretFile CanvasUrl = ''canvas.url''"

fun getSecret :: "secret \<Rightarrow> string \<Rightarrow> string option \<Rightarrow> filesystem \<Rightarrow> error + (string \<times> filesystem)" where
  "getSecret NotionKey = getNotionKey"
| "getSecret CanvasKey = getCanvasKey"
| "getSecret CanvasUrl = getCanvasUrl"

text \<open>
  Trimming as \<open>String.prototype.trim\<close> does it on ASCII text: white space is removed at
  both ends. The getters do not call it; it is here to compare their result with.
\<close>

definition isWhiteSpace :: "char \<Rightarrow> bool" where
  "isWhiteSpace c = (c \<in> set [CHR '' '', CHR 0x09, CHR 0x0A, CHR 0x0B, CHR 0x0C, CHR 0x0D])"

definition trim :: "string \<Rightarrow> string" where
  "trim s = rev (dropWhile isWhiteSpace (rev (dropWhile isWhiteSpace s)))"

section \<open>Facts about the conversion of numbers\<close>

lemma digit_char_zero: "d < 10 \<Longrightarrow> digit_char d = CHR ''0'' \<longleftrightarrow> d = 0"
proof -
  assume "d < 10"
  then have "d \<in> {0, 1, 2, 3, 4, 5, 6, 7, 8, 9}" by auto
  then show ?thesis by (auto simp: digit_char_def)
qed

lemma digits_small: "n < 10 \<Longrightarrow> digits n = [digit_char n]"
  by (subst digits.simps) simp

lemma digits_large: "\<not> n < 10 \<Longrightarrow> digits n = digits (n div 10) @ [digit_char (n mod 10)]"
  by (subst digits.simps) simp

lemma digits_nonempty: "digits n \<noteq> []"
  by (subst digits.simps) simp

lemma digits_zero: "digits n = ''0'' \<longleftrightarrow> n = 0"
proof (cases "n < 10")
  case True
  then show ?thesis by (subst digits.simps) (simp add: digit_char_zero)
next
  case False
  then have "digits n = digits (n div 10) @ [digit_char (n mod 10)]"
    by (subst digits.simps) simp
  with digits_nonempty [of "n div 10"] False show ?thesis
    by (cases "digits (n div 10)") auto
qed

lemma toString_zero: "toString n = ''0'' \<longleftrightarrow> n = 0"
proof (cases "n < 0")
  case True
  then show ?thesis by (simp add: toString_def)
next
  case False
  then show ?thesis by (simp add: toString_def digits_zero)
qed

lemma Assignment_Id_new: "Assignment_Id (assignmentToNewPage t a) = id' a"
  by (simp add: assignmentToNewPage_def)

lemma map_Assignment_Id_newEntries:
  "map Assignment_Id (newEntries clock A) = map id' (filter notSentinel A)"
proof -
  have "map Assignment_Id (newEntries clock A) = map (id' \<circ> snd) (enumerate 0 (filter notSentinel A))"
    by (simp add: newEntries_def Assignment_Id_new case_prod_beta comp_def)
  also have "\<dots> = map id' (filter notSentinel A)"
    by (simp add: map_snd_enumerate flip: map_map)
  finally show ?thesis .
qed

lemma toCreateFilter_total:
  "\<forall>e \<in> set es. Assignment_Id e \<noteq> None \<Longrightarrow>
   toCreateFilter keys es = Inr (filter (\<lambda>e. \<not> hasKey keys (Assignment_Id e)) es)"
  by (induction es) (auto simp: hasKey_def)

lemma toCreateFilter_throws:
  "\<exists>e \<in> set es. Assignment_Id e = None \<Longrightarrow> toCreateFilter keys es = Inl TypeError"
proof (induction es)
  case Nil
  then show ?case by simp
next
  case (Cons e es)
  show ?case
  proof (cases "Assignment_Id e")
    case None
    then show ?thesis by simp
  next
    case (Some n)
    with Cons.prems have "\<exists>e \<in> set es. Assignment_Id e = None" by auto
    with Cons.IH Some show ?thesis by simp
  qed
qed

lemma find_matches: "(find (matches a) es \<noteq> None) = hasKey (map assignmentId es) (id' a)"
  by (cases "id' a") (auto simp: find_None_iff matches_def hasKey_def intro: rev_image_eqI)

lemma id_withPageId: "id' (withPageId es a) = id' a"
  by (simp add: withPageId_def assignment.defs)

lemma map_id_updatedAssignments:
  "map id' (updatedAssignments A es) =
   filter (hasKey (map assignmentId es)) (map id' (filter notSentinel A))"
proof -
  have "map id' (updatedAssignments A es) =
     map id' (filter (\<lambda>a. notSentinel a \<and> find (matches a) es \<noteq> None) A)"
    unfolding updatedAssignments_def by (simp add: id_withPageId comp_def)
  also have "\<dots> = map id' (filter (\<lambda>a. hasKey (map assignmentId es) (id' a)) (filter notSentinel A))"
    by (simp only: find_matches filter_filter conj_commute)
  also have "\<dots> = filter (hasKey (map assignmentId es)) (map id' (filter notSentinel A))"
    by (simp add: filter_map comp_def)
  finally show ?thesis .
qed

lemma newEntries_have_ids:
  assumes "\<forall>a \<in> set A. notSentinel a \<longrightarrow> id' a \<noteq> None"
  shows "\<forall>e \<in> set (newEntries clock A). Assignment_Id e \<noteq> None"
proof
  fix e assume "e \<in> set (newEntries clock A)"
  then have "Assignment_Id e \<in> set (map Assignment_Id (newEntries clock A))" by simp
  then have "Assignment_Id e \<in> set (map id' (filter notSentinel A))"
    by (simp only: map_Assignment_Id_newEntries)
  with assms show "Assignment_Id e \<noteq> None" by auto
qed

lemma toCreate_total:
  assumes "\<forall>a \<in> set A. notSentinel a \<longrightarrow> id' a \<noteq> None"
  shows "toCreate clock A es =
     Inr (filter (\<lambda>e. \<not> hasKey (map assignmentId es) (Assignment_Id e)) (newEntries clock A))"
  unfolding toCreate_def by (rule toCreateFilter_total [OF newEntries_have_ids [OF assms]])

lemma map_Assignment_Id_created:
  "map Assignment_Id (filter (\<lambda>e. \<not> hasKey keys (Assignment_Id e)) (newEntries clock A)) =
   filter (\<lambda>i. \<not> hasKey keys i) (map id' (filter notSentinel A))"
proof -
  have "map Assignment_Id (filter (\<lambda>e. \<not> hasKey keys (Assignment_Id e)) (newEntries clock A)) =
     filter (\<lambda>i. \<not> hasKey keys i) (map Assignment_Id (newEntries clock A))"
    by (simp add: filter_map comp_def)
  then show ?thesis by (simp only: map_Assignment_Id_newEntries)
qed

lemma page_id_updatedEntries:
  "map page_id (updatedEntries clock A es) = map pageId' (updatedAssignments A es)"
proof -
  have "map page_id (updatedEntries clock A es) =
      map (pageId' \<circ> snd) (enumerate 0 (updatedAssignments A es))"
    by (simp add: updatedEntries_def assignmentToUpdatedPage_def case_prod_beta comp_def)
  also have "\<dots> = map pageId' (updatedAssignments A es)"
    by (simp add: map_snd_enumerate flip: map_map)
  finally show ?thesis .
qed

text \<open>
  When every assignment that is not sentinel-named has an id, reconciliation returns a
  creation set; the ids of the creation set and of the update set are disjoint and
  together are exactly the ids of the assignments that are not sentinel-named; and the
  update payloads are, in order, those of the assignments of the update set.
\<close>

lemma partition_when_ids_present:
  assumes "\<forall>a \<in> set A. notSentinel a \<longrightarrow> id' a \<noteq> None"
  shows "\<exists>cs. toCreate clock A es = Inr cs \<and>
     set (map Assignment_Id cs) \<inter> set (map id' (updatedAssignments A es)) = {} \<and>
     set (map Assignment_Id cs) \<union> set (map id' (updatedAssignments A es))
       = set (map id' (filter notSentinel A)) \<and>
     map page_id (updatedEntries clock' A es) = map pageId' (updatedAssignments A es)"
proof -
  let ?cs = "filter (\<lambda>e. \<not> hasKey (map assignmentId es) (Assignment_Id e)) (newEntries clock A)"
  have cs: "toCreate clock A es = Inr ?cs"
    by (rule toCreate_total [OF assms])
  have disj: "set (map Assignment_Id ?cs) \<inter> set (map id' (updatedAssignments A es)) = {}"
    unfolding map_Assignment_Id_created map_id_updatedAssignments set_filter by blast
  have un: "set (map Assignment_Id ?cs) \<union> set (map id' (updatedAssignments A es))
       = set (map id' (filter notSentinel A))"
    unfolding map_Assignment_Id_created map_id_updatedAssignments set_filter by blast
  from cs disj un page_id_updatedEntries [of clock' A es] show ?thesis by blast
qed

section \<open>Missing and repeated ids\<close>

lemma toCreate_throws:
  assumes "a \<in> set A" and "notSentinel a" and "id' a = None"
  shows "toCreate clock A es = Inl TypeError"
proof -
  from assms have "None \<in> set (map id' (filter notSentinel A))" by force
  then have "None \<in> set (map Assignment_Id (newEntries clock A))"
    by (simp only: map_Assignment_Id_newEntries)
  then have "\<exists>e \<in> set (newEntries clock A). Assignment_Id e = None"
    by (metis (no_types) imageE list.set_map)
  then show ?thesis unfolding toCreate_def by (rule toCreateFilter_throws)
qed

text \<open>
  Claim C1. The partition of the ids fails on a list with an assignment that has no id and
  is not sentinel-named: the update set is computed, here for the known id \<open>1\<close>, but the
  filter of \<open>toCreate\<close> throws, so there is no creation set and the run ends with the
  error, the second assignment being in neither set.
\<close>

theorem id_less_assignment_breaks_partition:
  "map page_id (updatedEntries (\<lambda>k. ''2024-01-01T00:00:00.000Z'')
     [\<lparr>id' = Some 1, name = Some ''HW1'', due_at = Some ''2024-02-01'', course_id = Some 7,
        html_url = None\<rparr>,
      \<lparr>id' = None, name = Some ''HW2'', due_at = Some ''2024-02-02'', course_id = Some 7,
        html_url = None\<rparr>]
     (assignmentIds (getExistingAssignments
        [FullPage ''p1'' [(''Assignment Id'', Number (Some 1))]]))) = [''p1''] \<and>
   toCreate (\<lambda>k. ''2024-01-01T00:00:00.000Z'')
     [\<lparr>id' = Some 1, name = Some ''HW1'', due_at = Some ''2024-02-01'', course_id = Some 7,
        html_url = None\<rparr>,
      \<lparr>id' = None, name = Some ''HW2'', due_at = Some ''2024-02-02'', course_id = Some 7,
        html_url = None\<rparr>]
     (assignmentIds (getExistingAssignments
        [FullPage ''p1'' [(''Assignment Id'', Number (Some 1))]])) = Inl TypeError \<and>
   sync (\<lambda>k. ''2024-01-01T00:00:00.000Z'') (\<lambda>k. ''2024-01-01T00:00:00.000Z'') ''db''
     [\<lparr>id' = Some 1, name = Some ''HW1'', due_at = Some ''2024-02-01'', course_id = Some 7,
        html_url = None\<rparr>,
      \<lparr>id' = None, name = Some ''HW2'', due_at = Some ''2024-02-02'', course_id = Some 7,
        html_url = None\<rparr>]
     [FullPage ''p1'' [(''Assignment Id'', Number (Some 1))]] = Inl TypeError"
  by (simp add: sync_def updatedEntries_def updatedAssignments_def withPageId_def matches_def
      assignmentToUpdatedPage_def toCreate_def newEntries_def enumerate_eq_zip
      assignmentToNewPage_def notSentinel_def sentinel_def getExistingAssignments_def
      toString_def digits_small digit_char_def assignment.defs assignment_with_page.defs)

text \<open>
  Claim C3. An assignment that is not sentinel-named and has no id does not reach the
  to-create set: the filter of \<open>toCreate\<close> throws on it, and the run ends with the error
  before any page is created or updated.
\<close>

theorem missing_id_aborts_run:
  "sync (\<lambda>k. ''2024-01-01T00:00:00.000Z'') (\<lambda>k. ''2024-01-01T00:00:00.000Z'') ''db''
     [\<lparr>id' = None, name = Some ''HW1'', due_at = Some ''2024-02-01'', course_id = Some 7,
        html_url = None\<rparr>] [] = Inl TypeError"
  by (simp add: sync_def getExistingAssignments_def toCreate_def newEntries_def enumerate_eq_zip
      assignmentToNewPage_def notSentinel_def sentinel_def)

theorem duplicate_ids_counterexample:
  "map_sum id (map Assignment_Id)
     (toCreate (\<lambda>k. ''2024-01-01T00:00:00.000Z'')
        [\<lparr>id' = Some 1, name = Some ''HW1'', due_at = None, course_id = Some 7, html_url = None\<rparr>,
         \<lparr>id' = Some 1, name = Some ''HW1 again'', due_at = None, course_id = Some 7, html_url = None\<rparr>]
        []) = Inr [Some 1, Some 1]"
  by (simp add: toCreate_def newEntries_def enumerate_eq_zip
      assignmentToNewPage_def notSentinel_def sentinel_def)

text \<open>
  Claim C4, as amended. When the assignments that are not sentinel-named have pairwise
  different ids, reconciliation produces at most one creation payload per id. Nothing
  removes duplicates: two assignments with the same id give two payloads.
\<close>

theorem distinct_ids_created_once:
  assumes "\<forall>a \<in> set A. notSentinel a \<longrightarrow> id' a \<noteq> None"
    and "distinct (map id' (filter notSentinel A))"
  shows "\<exists>cs. toCreate clock A es = Inr cs \<and> distinct (map Assignment_Id cs)"
proof -
  let ?cs = "filter (\<lambda>e. \<not> hasKey (map assignmentId es) (Assignment_Id e)) (newEntries clock A)"
  have "toCreate clock A es = Inr ?cs"
    by (rule toCreate_total [OF assms(1)])
  moreover have "distinct (map Assignment_Id ?cs)"
    unfolding map_Assignment_Id_created using assms(2) by (rule distinct_filter)
  ultimately show ?thesis by blast
qed

theorem distinct_ids_created_once_witness:
  "\<exists>cs. toCreate (\<lambda>k. ''2024-01-01T00:00:00.000Z'')
        [\<lparr>id' = Some 1, name = Some ''HW1'', due_at = None, course_id = Some 7, html_url = None\<rparr>,
         \<lparr>id' = Some 2, name = Some ''HW2'', due_at = None, course_id = Some 7, html_url = None\<rparr>]
        [] = Inr cs \<and> map Assignment_Id cs = [Some 1, Some 2]"
  using distinct_ids_created_once
    [of "[\<lparr>id' = Some 1, name = Some ''HW1'', due_at = None, course_id = Some 7, html_url = None\<rparr>,
         \<lparr>id' = Some 2, name = Some ''HW2'', due_at = None, course_id = Some 7, html_url = None\<rparr>]"
        "\<lambda>k. ''2024-01-01T00:00:00.000Z''" "[]"]
  by (simp add: toCreate_def newEntries_def enumerate_eq_zip
      assignmentToNewPage_def notSentinel_def sentinel_def)

section \<open>Pages the lookup leaves out\<close>

lemma collect_Cons:
  "collectAssignmentIds (p # ps) =
     (case pushedNumber p of
        None \<Rightarrow> collectAssignmentIds ps
      | Some n \<Rightarrow> \<lparr>pageId = page_ident p, assignmentId = toString n\<rparr> # collectAssignmentIds ps)"
proof (cases "map_of (page_properties p) ''Assignment Id''")
  case None
  then show ?thesis by (simp add: pushedNumber_def)
next
  case (Some v)
  show ?thesis
  proof (cases v)
    case (Number m)
    with Some show ?thesis by (cases m) (simp_all add: pushedNumber_def)
  qed (simp_all add: Some pushedNumber_def)
qed

lemma pushedNumber_nonzero: "pushedNumber p = Some n \<Longrightarrow> n \<noteq> 0"
  by (auto simp: pushedNumber_def split: option.splits property_value.splits if_splits)

lemma keys_collect:
  "set (map assignmentId (collectAssignmentIds ps)) = {toString n | n p. p \<in> set ps \<and> pushedNumber p = Some n}"
proof (induction ps)
  case Nil
  then show ?case by simp
next
  case (Cons p ps)
  show ?case
  proof (cases "pushedNumber p")
    case None
    with Cons.IH show ?thesis
      by (auto simp add: collect_Cons simp del: collectAssignmentIds.simps)
  next
    case (Some n)
    with Cons.IH show ?thesis
      by (auto simp add: collect_Cons simp del: collectAssignmentIds.simps)
  qed
qed


lemma collectAssignmentIds_append:
  "collectAssignmentIds (ps @ qs) = collectAssignmentIds ps @ collectAssignmentIds qs"
  by (induction ps) (auto split: option.splits property_value.splits)

lemma collect_not_number:
  assumes "\<not> numberTyped p"
  shows "collectAssignmentIds [p] = []"
proof (cases "map_of (page_properties p) ''Assignment Id''")
  case None
  then show ?thesis by simp
next
  case (Some v)
  with assms show ?thesis by (cases v) (simp_all add: numberTyped_def)
qed

lemma collect_skip:
  assumes "collectAssignmentIds [p] = []"
  shows "collectAssignmentIds (ps @ p # qs) = collectAssignmentIds (ps @ qs)"
proof -
  have "collectAssignmentIds (ps @ [p] @ qs) =
        collectAssignmentIds ps @ collectAssignmentIds [p] @ collectAssignmentIds qs"
    by (simp only: collectAssignmentIds_append)
  also have "\<dots> = collectAssignmentIds (ps @ qs)"
    by (simp only: assms collectAssignmentIds_append append_Nil)
  finally show ?thesis by (simp only: append_Cons append_Nil)
qed

lemma lookup_drop:
  assumes "hasProperties p \<Longrightarrow> collectAssignmentIds [p] = []"
  shows "assignmentIds (getExistingAssignments (ps @ p # qs)) =
         assignmentIds (getExistingAssignments (ps @ qs))"
proof (cases "hasProperties p")
  case True
  then have "filter hasProperties (ps @ p # qs) = filter hasProperties ps @ p # filter hasProperties qs"
    by simp
  moreover have "filter hasProperties (ps @ qs) = filter hasProperties ps @ filter hasProperties qs"
    by simp
  ultimately show ?thesis
    unfolding getExistingAssignments_def Let_def
    using collect_skip [OF assms [OF True], of "filter hasProperties ps" "filter hasProperties qs"]
    by (simp only: existing.simps)
next
  case False
  then show ?thesis by (simp add: getExistingAssignments_def)
qed


lemma sync_lookup:
  assumes "assignmentIds (getExistingAssignments rs) = assignmentIds (getExistingAssignments rs')"
  shows "sync c1 c2 db A rs = sync c1 c2 db A rs'"
  unfolding sync_def Let_def assms ..

text \<open>
  Claim C7. A page whose \<open>Assignment Id\<close> property is missing or of a type other than
  \<open>number\<close> contributes nothing to the lookup: the lookup, and with it the whole
  reconciliation, is the same as if the page were not in the database.
\<close>

theorem non_number_page_ignored:
  assumes "\<not> numberTyped p"
  shows "assignmentIds (getExistingAssignments (ps @ p # qs)) =
           assignmentIds (getExistingAssignments (ps @ qs)) \<and>
         sync clockNew clockUpd databaseId A (ps @ p # qs) =
           sync clockNew clockUpd databaseId A (ps @ qs)"
proof -
  have eq: "assignmentIds (getExistingAssignments (ps @ p # qs)) =
           assignmentIds (getExistingAssignments (ps @ qs))"
    by (rule lookup_drop) (rule collect_not_number [OF assms])
  from eq sync_lookup [OF eq] show ?thesis by (rule conjI)
qed

theorem non_number_page_ignored_witness:
  "assignmentIds (getExistingAssignments
      [FullPage ''p1'' [(''Assignment Id'', Number (Some 1))],
       FullPage ''p2'' [(''Assignment Id'', Rich_text ''2'')]]) =
   assignmentIds (getExistingAssignments
      [FullPage ''p1'' [(''Assignment Id'', Number (Some 1))]])"
proof -
  have "\<not> numberTyped (FullPage ''p2'' [(''Assignment Id'', Rich_text ''2'')])"
    by (simp add: numberTyped_def)
  from non_number_page_ignored [OF this,
      of "[FullPage ''p1'' [(''Assignment Id'', Number (Some 1))]]" "[]"]
  have "assignmentIds (getExistingAssignments
      ([FullPage ''p1'' [(''Assignment Id'', Number (Some 1))]] @
       FullPage ''p2'' [(''Assignment Id'', Rich_text ''2'')] # [])) =
   assignmentIds (getExistingAssignments
      ([FullPage ''p1'' [(''Assignment Id'', Number (Some 1))]] @ []))"
    by (rule conjunct1)
  then show ?thesis by (simp only: append_Cons append_Nil append_Nil2)
qed

section \<open>Numbers the lookup leaves out\<close>

lemma assignmentIds_lookup:
  "assignmentIds (getExistingAssignments rs) = collectAssignmentIds (filter hasProperties rs)"
  by (simp add: getExistingAssignments_def Let_def)

lemma pushedNumber_zero_or_null:
  assumes "map_of (page_properties p) ''Assignment Id'' = Some (Number None) \<or>
           map_of (page_properties p) ''Assignment Id'' = Some (Number (Some 0))"
  shows "pushedNumber p = None"
  using assms by (auto simp: pushedNumber_def)

lemma collect_unpushed:
  assumes "pushedNumber p = None"
  shows "collectAssignmentIds [p] = []"
  using assms by (simp add: collect_Cons del: collectAssignmentIds.simps(2))

lemma key_not_zero: "''0'' \<notin> set (map assignmentId (collectAssignmentIds ps))"
proof
  assume "''0'' \<in> set (map assignmentId (collectAssignmentIds ps))"
  then obtain n p where "''0'' = toString n" and "pushedNumber p = Some n"
    unfolding keys_collect by blast
  then show False
    using pushedNumber_nonzero [of p n] toString_zero [of n] by simp
qed

lemma created_member:
  assumes "a \<in> set A" and "notSentinel a"
  shows "\<exists>k. assignmentToNewPage (clock k) a \<in> set (newEntries clock A)"
proof -
  from assms have "a \<in> set (filter notSentinel A)" by simp
  then obtain k where "k < length (filter notSentinel A)" and "filter notSentinel A ! k = a"
    by (metis in_set_conv_nth)
  then have "(k, a) \<in> set (enumerate 0 (filter notSentinel A))"
    by (simp add: in_set_enumerate_eq)
  then have "(\<lambda>(k, a). assignmentToNewPage (clock k) a) (k, a) \<in> set (newEntries clock A)"
    unfolding newEntries_def set_map by (rule imageI)
  then show ?thesis by auto
qed

text \<open>
  Claim C10. A page whose \<open>Assignment Id\<close> property is a number with value \<open>0\<close> or
  \<open>null\<close> adds nothing to the lookup, because the loop tests the truthiness of the number.
  So, whatever pages the database holds, an assignment with id \<open>0\<close> that is not
  sentinel-named is in the to-create set of every run that returns.
\<close>

theorem zero_id_never_matched:
  "((map_of (page_properties p) ''Assignment Id'' = Some (Number None) \<or>
     map_of (page_properties p) ''Assignment Id'' = Some (Number (Some 0))) \<longrightarrow>
    assignmentIds (getExistingAssignments (ps @ p # qs)) =
      assignmentIds (getExistingAssignments (ps @ qs))) \<and>
   ((\<forall>b \<in> set A. notSentinel b \<longrightarrow> id' b \<noteq> None) \<and>
     a \<in> set A \<and> notSentinel a \<and> id' a = Some 0 \<longrightarrow>
    (\<exists>cs k. toCreate clock A (assignmentIds (getExistingAssignments results)) = Inr cs \<and>
       assignmentToNewPage (clock k) a \<in> set cs))"
proof (intro conjI impI)
  assume "map_of (page_properties p) ''Assignment Id'' = Some (Number None) \<or>
     map_of (page_properties p) ''Assignment Id'' = Some (Number (Some 0))"
  then have "collectAssignmentIds [p] = []"
    by (intro collect_unpushed pushedNumber_zero_or_null)
  then show "assignmentIds (getExistingAssignments (ps @ p # qs)) =
      assignmentIds (getExistingAssignments (ps @ qs))"
    by (intro lookup_drop)
next
  let ?es = "assignmentIds (getExistingAssignments results)"
  let ?cs = "filter (\<lambda>e. \<not> hasKey (map assignmentId ?es) (Assignment_Id e)) (newEntries clock A)"
  assume h: "(\<forall>b \<in> set A. notSentinel b \<longrightarrow> id' b \<noteq> None) \<and>
     a \<in> set A \<and> notSentinel a \<and> id' a = Some 0"
  from h have ids: "\<forall>b \<in> set A. notSentinel b \<longrightarrow> id' b \<noteq> None" by (rule conjunct1)
  have total: "toCreate clock A ?es = Inr ?cs"
    by (rule toCreate_total [OF ids])
  from h obtain k where k: "assignmentToNewPage (clock k) a \<in> set (newEntries clock A)"
    using created_member by blast
  have "''0'' \<notin> set (map assignmentId ?es)"
    unfolding assignmentIds_lookup by (rule key_not_zero)
  moreover have "toString 0 = ''0''" by (simp add: toString_zero)
  ultimately have "\<not> hasKey (map assignmentId ?es) (Some 0)"
    by (simp add: hasKey_def)
  with h have "\<not> hasKey (map assignmentId ?es) (Assignment_Id (assignmentToNewPage (clock k) a))"
    by (simp add: Assignment_Id_new)
  with k have "assignmentToNewPage (clock k) a \<in> set ?cs" by simp
  with total show "\<exists>cs k. toCreate clock A ?es = Inr cs \<and> assignmentToNewPage (clock k) a \<in> set cs"
    by blast
qed

theorem zero_id_never_matched_witness:
  "assignmentIds (getExistingAssignments
      [FullPage ''p0'' [(''Assignment Id'', Number (Some 0))]]) = [] \<and>
   (\<exists>cs k. toCreate (\<lambda>k. ''2024-01-01T00:00:00.000Z'')
       [\<lparr>id' = Some 0, name = Some ''HW0'', due_at = None, course_id = None, html_url = None\<rparr>]
       (assignmentIds (getExistingAssignments
          [FullPage ''p0'' [(''Assignment Id'', Number (Some 0))]])) = Inr cs \<and>
      assignmentToNewPage ''2024-01-01T00:00:00.000Z''
        \<lparr>id' = Some 0, name = Some ''HW0'', due_at = None, course_id = None, html_url = None\<rparr>
        \<in> set cs)"
proof -
  let ?p = "FullPage ''p0'' [(''Assignment Id'', Number (Some 0))]"
  let ?a = "\<lparr>id' = Some 0, name = Some ''HW0'', due_at = None, course_id = None, html_url = None\<rparr>"
  let ?clock = "\<lambda>k::nat. ''2024-01-01T00:00:00.000Z''"
  note t = zero_id_never_matched [of ?p "[]" "[]" "[?a]" ?a ?clock "[?p]"]
  have h1: "map_of (page_properties ?p) ''Assignment Id'' = Some (Number None) \<or>
     map_of (page_properties ?p) ''Assignment Id'' = Some (Number (Some 0))"
    by simp
  have h2: "(\<forall>b \<in> set [?a]. notSentinel b \<longrightarrow> id' b \<noteq> None) \<and>
     ?a \<in> set [?a] \<and> notSentinel ?a \<and> id' ?a = Some 0"
    by (simp add: notSentinel_def sentinel_def)
  from t h1 h2 have
    "assignmentIds (getExistingAssignments ([] @ ?p # [])) =
       assignmentIds (getExistingAssignments ([] @ [])) \<and>
     (\<exists>cs k. toCreate ?clock [?a] (assignmentIds (getExistingAssignments [?p])) = Inr cs \<and>
        assignmentToNewPage (?clock k) ?a \<in> set cs)"
    by blast
  then show ?thesis by (simp add: assignmentIds_lookup)
qed

section \<open>A second run\<close>

lemma pushed_key:
  assumes "p \<in> set rs" and "hasProperties p" and "pushedNumber p = Some n"
  shows "hasKey (map assignmentId (assignmentIds (getExistingAssignments rs))) (Some n)"
proof -
  from assms have "p \<in> set (filter hasProperties rs)" by simp
  with assms(3) have "toString n \<in> set (map assignmentId (collectAssignmentIds (filter hasProperties rs)))"
    unfolding keys_collect by blast
  then show ?thesis by (simp only: hasKey_def option.case assignmentIds_lookup)
qed

lemma key_pushed:
  assumes "hasKey (map assignmentId (assignmentIds (getExistingAssignments rs))) (Some n)"
  shows "\<exists>p m. p \<in> set rs \<and> hasProperties p \<and> pushedNumber p = Some m \<and> toString m = toString n"
proof -
  from assms have "toString n \<in> set (map assignmentId (collectAssignmentIds (filter hasProperties rs)))"
    by (simp only: hasKey_def option.case assignmentIds_lookup)
  then obtain m p where "toString n = toString m" "p \<in> set (filter hasProperties rs)" "pushedNumber p = Some m"
    unfolding keys_collect by blast
  then show ?thesis by auto
qed

lemma hasKey_mono:
  assumes "set rs \<subseteq> set rs'"
    and "hasKey (map assignmentId (assignmentIds (getExistingAssignments rs))) (Some n)"
  shows "hasKey (map assignmentId (assignmentIds (getExistingAssignments rs'))) (Some n)"
proof -
  from key_pushed [OF assms(2)] obtain p m where
    p: "p \<in> set rs" "hasProperties p" "pushedNumber p = Some m" "toString m = toString n"
    by blast
  from p(1) assms(1) have "p \<in> set rs'" by blast
  from pushed_key [OF this p(2) p(3)] p(4) show ?thesis
    by (simp only: hasKey_def option.case)
qed

lemma reflected_key:
  assumes "reflectsCreation rs' c" and "Assignment_Id c = Some n" and "n \<noteq> 0"
  shows "hasKey (map assignmentId (assignmentIds (getExistingAssignments rs'))) (Some n)"
proof -
  from assms(1,2) obtain p where p: "p \<in> set rs'" "hasProperties p"
      "map_of (page_properties p) ''Assignment Id'' = Some (Number (Some n))"
    unfolding reflectsCreation_def list_ex_iff by auto
  from p(3) assms(3) have "pushedNumber p = Some n" by (simp add: pushedNumber_def)
  from pushed_key [OF p(1) p(2) this] show ?thesis .
qed

lemma created_ids_of_run:
  assumes present: "\<forall>a \<in> set A. notSentinel a \<longrightarrow> id' a \<noteq> None"
    and run: "toCreate clock A es = Inr cs"
  shows "map Assignment_Id cs =
    filter (\<lambda>i. \<not> hasKey (map assignmentId es) i) (map id' (filter notSentinel A))"
proof -
  have "Inr cs = toCreate clock A es" using run by (rule sym)
  also have "\<dots> = Inr (filter (\<lambda>e. \<not> hasKey (map assignmentId es) (Assignment_Id e))
      (newEntries clock A))"
    by (rule toCreate_total [OF present])
  finally have "Inr cs = (Inr (filter (\<lambda>e. \<not> hasKey (map assignmentId es) (Assignment_Id e))
      (newEntries clock A)) :: error + new_page list)" .
  then have "cs = filter (\<lambda>e. \<not> hasKey (map assignmentId es) (Assignment_Id e)) (newEntries clock A)"
    by (simp only: sum.inject)
  then show ?thesis by (simp only: map_Assignment_Id_created)
qed

lemma all_known_creates_nothing:
  assumes present: "\<forall>a \<in> set A. notSentinel a \<longrightarrow> id' a \<noteq> None"
    and all: "\<forall>i \<in> set (map id' (filter notSentinel A)). hasKey (map assignmentId es) i"
  shows "toCreate clock A es = Inr []"
proof -
  have "\<forall>e \<in> set (newEntries clock A). hasKey (map assignmentId es) (Assignment_Id e)"
  proof
    fix e assume "e \<in> set (newEntries clock A)"
    then have "Assignment_Id e \<in> set (map Assignment_Id (newEntries clock A))" by simp
    then have "Assignment_Id e \<in> set (map id' (filter notSentinel A))"
      by (simp only: map_Assignment_Id_newEntries)
    with all show "hasKey (map assignmentId es) (Assignment_Id e)" by (rule bspec)
  qed
  then have "filter (\<lambda>e. \<not> hasKey (map assignmentId es) (Assignment_Id e)) (newEntries clock A) = []"
    by (simp only: filter_empty_conv not_not)
  with toCreate_total [OF present, of clock es] show ?thesis by (simp only:)
qed

lemma all_known_updates_all:
  assumes all: "\<forall>i \<in> set (map id' (filter notSentinel A)). hasKey (map assignmentId es) i"
  shows "map id' (updatedAssignments A es) = map id' (filter notSentinel A)"
proof -
  from all have "filter (hasKey (map assignmentId es)) (map id' (filter notSentinel A)) =
      map id' (filter notSentinel A)"
    by (simp only: filter_id_conv)
  then show ?thesis by (simp only: map_id_updatedAssignments)
qed

lemma run_covers_ids:
  assumes "map Assignment_Id cs =
    filter (\<lambda>i. \<not> hasKey (map assignmentId es) i) (map id' (filter notSentinel A))"
  shows "set (map Assignment_Id cs) \<union> set (map id' (updatedAssignments A es)) =
     set (map id' (filter notSentinel A))"
  unfolding assms map_id_updatedAssignments set_filter by blast

lemma all_known_after_first_run:
  assumes ids: "\<forall>a \<in> set A. notSentinel a \<longrightarrow> (\<exists>n. id' a = Some n \<and> n \<noteq> 0)"
    and created: "map Assignment_Id cs =
      filter (\<lambda>i. \<not> hasKey (map assignmentId (assignmentIds (getExistingAssignments results))) i)
        (map id' (filter notSentinel A))"
    and refl: "reflectsCreations results' cs"
    and kept: "set results \<subseteq> set results'"
  shows "\<forall>i \<in> set (map id' (filter notSentinel A)).
     hasKey (map assignmentId (assignmentIds (getExistingAssignments results'))) i"
proof
  let ?K = "map assignmentId (assignmentIds (getExistingAssignments results))"
  let ?K' = "map assignmentId (assignmentIds (getExistingAssignments results'))"
  fix i assume i: "i \<in> set (map id' (filter notSentinel A))"
  then obtain a where a: "a \<in> set A" "notSentinel a" "i = id' a" by auto
  with ids obtain n where n: "i = Some n" "n \<noteq> 0" by auto
  show "hasKey ?K' i"
  proof (cases "hasKey ?K i")
    case True
    with n(1) have "hasKey ?K (Some n)" by (simp only:)
    from hasKey_mono [OF kept this] n(1) show ?thesis by (simp only:)
  next
    case False
    with i have "i \<in> set (filter (\<lambda>i. \<not> hasKey ?K i) (map id' (filter notSentinel A)))"
      by (simp only: set_filter mem_Collect_eq simp_thms)
    then have "i \<in> set (map Assignment_Id cs)" by (simp only: created)
    then obtain c where c: "c \<in> set cs" "Assignment_Id c = i" by auto
    from refl c(1) have r: "reflectsCreation results' c"
      unfolding reflectsCreations_def list_all_iff by (rule bspec)
    from c(2) n(1) have "Assignment_Id c = Some n" by (simp only:)
    from reflected_key [OF r this n(2)] n(1) show ?thesis by (simp only:)
  qed
qed

text \<open>
  Claim C5, as amended. Let every assignment that is not sentinel-named have an id other
  than \<open>0\<close>, let a first run return the creation set \<open>cs\<close>, and let a later query return
  the earlier pages together with a page for each creation of \<open>cs\<close>. Then the second run
  creates nothing, and the ids it updates are exactly those the first run created or
  updated.
\<close>

theorem second_run_creates_nothing:
  assumes ids: "\<forall>a \<in> set A. notSentinel a \<longrightarrow> (\<exists>n. id' a = Some n \<and> n \<noteq> 0)"
    and run1: "toCreate clock A (assignmentIds (getExistingAssignments results)) = Inr cs"
    and refl: "reflectsCreations results' cs"
    and kept: "set results \<subseteq> set results'"
  shows "toCreate clock' A (assignmentIds (getExistingAssignments results')) = Inr [] \<and>
     set (map id' (updatedAssignments A (assignmentIds (getExistingAssignments results')))) =
       set (map Assignment_Id cs) \<union>
       set (map id' (updatedAssignments A (assignmentIds (getExistingAssignments results))))"
proof -
  from ids have present: "\<forall>a \<in> set A. notSentinel a \<longrightarrow> id' a \<noteq> None" by auto
  note created = created_ids_of_run [OF present run1]
  note all = all_known_after_first_run [OF ids created refl kept]
  have none: "toCreate clock' A (assignmentIds (getExistingAssignments results')) = Inr []"
    by (rule all_known_creates_nothing [OF present all])
  have "set (map id' (updatedAssignments A (assignmentIds (getExistingAssignments results')))) =
     set (map id' (filter notSentinel A))"
    by (simp only: all_known_updates_all [OF all])
  also have "\<dots> = set (map Assignment_Id cs) \<union>
       set (map id' (updatedAssignments A (assignmentIds (getExistingAssignments results))))"
    by (rule run_covers_ids [OF created, symmetric])
  finally show ?thesis using none by (rule conjI [rotated])
qed

theorem second_run_creates_nothing_witness:
  "toCreate (\<lambda>k. ''2024-03-01T00:00:00.000Z'')
     [\<lparr>id' = Some 1, name = Some ''HW1'', due_at = Some ''2024-02-01'', course_id = Some 7,
        html_url = None\<rparr>]
     (assignmentIds (getExistingAssignments
        [FullPage ''p1'' [(''Assignment Id'', Number (Some 1))]])) = Inr [] \<and>
   set (map id' (updatedAssignments
     [\<lparr>id' = Some 1, name = Some ''HW1'', due_at = Some ''2024-02-01'', course_id = Some 7,
        html_url = None\<rparr>]
     (assignmentIds (getExistingAssignments
        [FullPage ''p1'' [(''Assignment Id'', Number (Some 1))]])))) =
   set (map Assignment_Id
     [\<lparr>Name = ''HW1'', Due_Date = ''2024-02-01'', Assignment_Id = Some 1, Subject_Id = ''7'',
        Assignment_URL = None\<rparr>]) \<union>
   set (map id' (updatedAssignments
     [\<lparr>id' = Some 1, name = Some ''HW1'', due_at = Some ''2024-02-01'', course_id = Some 7,
        html_url = None\<rparr>]
     (assignmentIds (getExistingAssignments []))))"
proof -
  let ?a = "\<lparr>id' = Some 1, name = Some ''HW1'', due_at = Some ''2024-02-01'', course_id = Some 7,
        html_url = None\<rparr>"
  let ?c = "\<lparr>Name = ''HW1'', Due_Date = ''2024-02-01'', Assignment_Id = Some 1, Subject_Id = ''7'',
        Assignment_URL = None\<rparr>"
  let ?p = "FullPage ''p1'' [(''Assignment Id'', Number (Some 1))]"
  have h1: "\<forall>a \<in> set [?a]. notSentinel a \<longrightarrow> (\<exists>n. id' a = Some n \<and> n \<noteq> 0)"
    by simp
  have h2: "toCreate (\<lambda>k. ''2024-01-01T00:00:00.000Z'') [?a]
      (assignmentIds (getExistingAssignments [])) = Inr [?c]"
    by (simp add: toCreate_def newEntries_def enumerate_eq_zip assignmentToNewPage_def
        notSentinel_def sentinel_def getExistingAssignments_def toString_def digits_small
        digit_char_def)
  have h3: "reflectsCreations [?p] [?c]"
    by (simp add: reflectsCreations_def reflectsCreation_def)
  have h4: "set [] \<subseteq> set [?p]"
    by simp
  from second_run_creates_nothing [OF h1 h2 h3 h4] show ?thesis .
qed

text \<open>
  With the id \<open>0\<close> the second run creates the page again: the page the first run
  created carries the number \<open>0\<close>, which the lookup leaves out.
\<close>

theorem zero_id_created_again_counterexample:
  "toCreate (\<lambda>k. ''2024-01-01T00:00:00.000Z'')
     [\<lparr>id' = Some 0, name = Some ''HW0'', due_at = Some ''2024-02-01'', course_id = Some 7,
        html_url = None\<rparr>]
     (assignmentIds (getExistingAssignments [])) =
     Inr [\<lparr>Name = ''HW0'', Due_Date = ''2024-02-01'', Assignment_Id = Some 0, Subject_Id = ''7'',
        Assignment_URL = None\<rparr>] \<and>
   reflectsCreations
     [FullPage ''p1''
        [(''Name'', Title ''HW0''), (''Due Date'', Date ''2024-02-01''),
         (''Assignment Id'', Number (Some 0)), (''Subject Id'', Rich_text ''7''),
         (''Assignment URL'', Url None)]]
     [\<lparr>Name = ''HW0'', Due_Date = ''2024-02-01'', Assignment_Id = Some 0, Subject_Id = ''7'',
        Assignment_URL = None\<rparr>] \<and>
   toCreate (\<lambda>k. ''2024-01-01T00:00:00.000Z'')
     [\<lparr>id' = Some 0, name = Some ''HW0'', due_at = Some ''2024-02-01'', course_id = Some 7,
        html_url = None\<rparr>]
     (assignmentIds (getExistingAssignments
        [FullPage ''p1''
           [(''Name'', Title ''HW0''), (''Due Date'', Date ''2024-02-01''),
            (''Assignment Id'', Number (Some 0)), (''Subject Id'', Rich_text ''7''),
            (''Assignment URL'', Url None)]])) =
     Inr [\<lparr>Name = ''HW0'', Due_Date = ''2024-02-01'', Assignment_Id = Some 0, Subject_Id = ''7'',
        Assignment_URL = None\<rparr>]"
  by (simp add: toCreate_def newEntries_def enumerate_eq_zip assignmentToNewPage_def
      notSentinel_def sentinel_def getExistingAssignments_def toString_def digits_small
      digit_char_def reflectsCreations_def reflectsCreation_def)

section \<open>The update that is sent\<close>

lemma update_request_keys:
  "r \<in> set (updateRequests us) \<Longrightarrow> map fst (request_properties r) = [''Due Date'']"
  by (auto simp: updateRequests_def)

text \<open>
  Claim C2. For an assignment found in the lookup, \<open>assignmentToUpdatedPage\<close> builds a
  payload with the due date and the url, but the update that is issued for the page
  carries the due date alone: the url of the payload is not sent.
\<close>

theorem update_request_drops_url:
  "updatedEntries (\<lambda>k. ''2024-01-01T00:00:00.000Z'')
     [\<lparr>id' = Some 1, name = Some ''HW1'', due_at = Some ''2024-02-01'', course_id = Some 7,
        html_url = Some ''https://canvas.example/courses/7/assignments/1''\<rparr>]
     (assignmentIds (getExistingAssignments
        [FullPage ''p1'' [(''Assignment Id'', Number (Some 1))]])) =
     [\<lparr>page_id = ''p1'',
       properties = \<lparr>upd_Due_Date = ''2024-02-01'',
         upd_Assignment_URL = Some ''https://canvas.example/courses/7/assignments/1''\<rparr>\<rparr>] \<and>
   sync (\<lambda>k. ''2024-01-01T00:00:00.000Z'') (\<lambda>k. ''2024-01-01T00:00:00.000Z'') ''db''
     [\<lparr>id' = Some 1, name = Some ''HW1'', due_at = Some ''2024-02-01'', course_id = Some 7,
        html_url = Some ''https://canvas.example/courses/7/assignments/1''\<rparr>]
     [FullPage ''p1'' [(''Assignment Id'', Number (Some 1))]] =
     Inr ([], [\<lparr>request_page_id = ''p1'',
                request_properties = [(''Due Date'', Date ''2024-02-01'')]\<rparr>])"
  by (simp add: sync_def updatedEntries_def updatedAssignments_def withPageId_def matches_def
      assignmentToUpdatedPage_def updateRequests_def createRequests_def
      toCreate_def newEntries_def enumerate_eq_zip assignmentToNewPage_def
      notSentinel_def sentinel_def getExistingAssignments_def toString_def digits_small
      digit_char_def assignment.defs assignment_with_page.defs)

section \<open>Reading and storing the secrets\<close>

lemma dirname_path_join:
  assumes "CHR ''/'' \<notin> set f"
  shows "dirname (path_join d f) = d"
proof -
  have "rev (path_join d f) = rev f @ CHR ''/'' # rev d"
    by (simp add: path_join_def)
  moreover from assms have "dropWhile (\<lambda>c. c \<noteq> CHR ''/'') (rev f @ CHR ''/'' # rev d) = CHR ''/'' # rev d"
    by (subst dropWhile_append2) auto
  ultimately show ?thesis by (simp add: dirname_def)
qed

lemma secretFile_no_slash: "CHR ''/'' \<notin> set (secretFile s)"
  by (cases s) simp_all

text \<open>
  Claim C8, as amended. For each of the three secrets, when its file exists the getter
  returns the contents of the file as they are, without prompting and without writing;
  the contents are not trimmed.
\<close>

theorem stored_secret_returned_verbatim:
  assumes "files fs (path_join config (secretFile s)) = Some content"
  shows "getSecret s config answer fs = Inr (content, fs)"
  using assms
  by (cases s) (simp_all add: getNotionKey_def getCanvasKey_def getCanvasUrl_def
      existsSync_def readFileSync_def)

theorem stored_secret_returned_verbatim_witness:
  "getSecret CanvasKey ''/home/u/.config/notion-canvas-sync'' None
     \<lparr>dirs = {''/home/u/.config/notion-canvas-sync''},
      files = [''/home/u/.config/notion-canvas-sync/canvas.key'' \<mapsto> '' secret '']\<rparr> =
   Inr ('' secret '',
     \<lparr>dirs = {''/home/u/.config/notion-canvas-sync''},
      files = [''/home/u/.config/notion-canvas-sync/canvas.key'' \<mapsto> '' secret '']\<rparr>)"
  by (rule stored_secret_returned_verbatim) (simp add: path_join_def)

theorem stored_secret_not_trimmed_counterexample:
  "map_sum id fst
     (getNotionKey ''/home/u/.config/notion-canvas-sync'' None
        \<lparr>dirs = {''/home/u/.config/notion-canvas-sync''},
         files = [''/home/u/.config/notion-canvas-sync/notion.key'' \<mapsto> ''secret'' @ [CHR 0x0A]]\<rparr>) =
     Inr (''secret'' @ [CHR 0x0A]) \<and>
   trim (''secret'' @ [CHR 0x0A]) = ''secret''"
  by (simp add: getNotionKey_def existsSync_def readFileSync_def path_join_def trim_def
      isWhiteSpace_def)

lemma ancestors_shorter: "a \<in> set (ancestors p) \<Longrightarrow> length a < length p"
proof (induction p rule: ancestors.induct)
  case (1 p)
  show ?case
  proof (cases "dirname p = []")
    case True
    with "1.prems" show ?thesis by (subst (asm) ancestors.simps) simp
  next
    case False
    have len: "length (dirname p) < length p"
    proof -
      from False have ne: "dropWhile (\<lambda>c. c \<noteq> CHR ''/'') (rev p) \<noteq> []"
        by (auto simp: dirname_def simp del: dropWhile_eq_Nil_conv)
      then have "length (tl (dropWhile (\<lambda>c. c \<noteq> CHR ''/'') (rev p))) <
          length (dropWhile (\<lambda>c. c \<noteq> CHR ''/'') (rev p))"
        by (cases "dropWhile (\<lambda>c. c \<noteq> CHR ''/'') (rev p)") simp_all
      also have "\<dots> \<le> length (rev p)" by (rule length_dropWhile_le)
      finally show ?thesis by (simp add: dirname_def)
    qed
    from "1.prems" False have "a = dirname p \<or> a \<in> set (ancestors (dirname p))"
      by (subst (asm) ancestors.simps) simp
    then show ?thesis
    proof
      assume "a = dirname p"
      with len show ?thesis by simp
    next
      assume "a \<in> set (ancestors (dirname p))"
      from "1.IH" [OF False this] len show ?thesis by simp
    qed
  qed
qed

lemma ancestors_path_join:
  assumes "CHR ''/'' \<notin> set f"
  shows "ancestors (path_join d f) = (if d = [] then [] else d # ancestors d)"
  by (subst ancestors.simps) (simp add: dirname_path_join [OF assms])

lemma path_join_not_same: "path_join d f \<noteq> d"
  by (simp add: path_join_def)

lemma path_join_not_above: "path_join d f \<notin> set (ancestors d)"
proof
  assume "path_join d f \<in> set (ancestors d)"
  from ancestors_shorter [OF this] show False by (simp add: path_join_def)
qed

lemma underRegularFile_path_join:
  assumes "CHR ''/'' \<notin> set f"
  shows "underRegularFile fs (path_join d f) =
     (d \<noteq> [] \<and> (files fs d \<noteq> None \<or> underRegularFile fs d))"
  by (simp add: underRegularFile_def ancestors_path_join [OF assms])

lemma underRegularFile_dirs: "underRegularFile (fs\<lparr>dirs := D\<rparr>) p = underRegularFile fs p"
  by (simp add: underRegularFile_def)

lemma notion_key_needs_directory:
  assumes "config \<notin> dirs fs"
    and "\<not> existsSync fs (path_join config ''notion.key'')"
  shows "getNotionKey config (Some key) fs = Inl ENOENT \<or>
         getNotionKey config (Some key) fs = Inl ENOTDIR"
proof -
  have "dirname (path_join config ''notion.key'') = config"
    by (rule dirname_path_join) simp
  with assms show ?thesis
    by (simp add: getNotionKey_def Let_def writeFileSync_def existsSync_def)
qed

lemma write_after_mkdir:
  assumes slash: "CHR ''/'' \<notin> set f"
    and absent: "\<not> existsSync fs (path_join config f)"
    and nofile: "files fs config = None"
    and above: "\<not> underRegularFile fs config"
  shows "\<exists>fs1 fs2. mkdirSync fs config = Inr fs1 \<and>
     writeFileSync fs1 (path_join config f) key = Inr fs2 \<and>
     files fs2 (path_join config f) = Some key \<and> config \<in> dirs fs2"
proof -
  let ?fs1 = "fs\<lparr>dirs := insert config (set (ancestors config) \<union> dirs fs)\<rparr>"
  let ?fs2 = "?fs1\<lparr>files := (files ?fs1)(path_join config f \<mapsto> key)\<rparr>"
  from nofile above have mk: "mkdirSync fs config = Inr ?fs1"
    by (simp add: mkdirSync_def)
  from absent have "path_join config f \<notin> dirs fs"
    by (simp add: existsSync_def)
  with path_join_not_same [of config f] path_join_not_above [of config f]
  have nodir: "path_join config f \<notin> dirs ?fs1"
    by simp
  from nofile above have "\<not> underRegularFile ?fs1 (path_join config f)"
    by (simp add: underRegularFile_path_join [OF slash] underRegularFile_dirs)
  with nodir have "writeFileSync ?fs1 (path_join config f) key = Inr ?fs2"
    by (simp add: writeFileSync_def dirname_path_join [OF slash])
  with mk show ?thesis by simp
qed

lemma canvas_key_creates_directory:
  assumes "\<not> existsSync fs (path_join config ''canvas.key'')"
    and "files fs config = None"
    and "\<not> underRegularFile fs config"
  shows "\<exists>fs'. getCanvasKey config (Some key) fs = Inr (key, fs') \<and>
     files fs' (path_join config ''canvas.key'') = Some key \<and> config \<in> dirs fs'"
proof -
  have "CHR ''/'' \<notin> set ''canvas.key''" by simp
  from write_after_mkdir [OF this assms, of key] obtain fs1 fs2 where
    "mkdirSync fs config = Inr fs1"
    "writeFileSync fs1 (path_join config ''canvas.key'') key = Inr fs2"
    "files fs2 (path_join config ''canvas.key'') = Some key" "config \<in> dirs fs2"
    by blast
  with assms(1) show ?thesis by (simp add: getCanvasKey_def)
qed

lemma canvas_url_creates_directory:
  assumes "\<not> existsSync fs (path_join config ''canvas.url'')"
    and "files fs config = None"
    and "\<not> underRegularFile fs config"
  shows "\<exists>fs'. getCanvasUrl config (Some key) fs = Inr (key, fs') \<and>
     files fs' (path_join config ''canvas.url'') = Some key \<and> config \<in> dirs fs'"
proof -
  have "CHR ''/'' \<notin> set ''canvas.url''" by simp
  from write_after_mkdir [OF this assms, of key] obtain fs1 fs2 where
    "mkdirSync fs config = Inr fs1"
    "writeFileSync fs1 (path_join config ''canvas.url'') key = Inr fs2"
    "files fs2 (path_join config ''canvas.url'') = Some key" "config \<in> dirs fs2"
    by blast
  with assms(1) show ?thesis by (simp add: getCanvasUrl_def)
qed

text \<open>
  Claim C9. With no config directory and no stored secret, \<open>getNotionKey\<close> prompts and
  then fails in \<open>writeFileSync\<close> with \<open>ENOENT\<close>: it does not create the directory.
  \<open>getCanvasKey\<close>, on the same file system, creates it and returns the value.
\<close>

theorem notion_key_without_directory:
  "getNotionKey ''/home/u/.config/notion-canvas-sync'' (Some ''secret'')
     \<lparr>dirs = {''/home/u/.config''}, files = Map.empty\<rparr> = Inl ENOENT \<and>
   map_sum id fst
     (getCanvasKey ''/home/u/.config/notion-canvas-sync'' (Some ''secret'')
        \<lparr>dirs = {''/home/u/.config''}, files = Map.empty\<rparr>) = Inr ''secret''"
proof
  let ?fs = "\<lparr>dirs = {''/home/u/.config''}, files = Map.empty\<rparr>"
  have "getNotionKey ''/home/u/.config/notion-canvas-sync'' (Some ''secret'') ?fs = Inl ENOENT \<or>
      getNotionKey ''/home/u/.config/notion-canvas-sync'' (Some ''secret'') ?fs = Inl ENOTDIR"
    by (rule notion_key_needs_directory) (simp_all add: existsSync_def path_join_def)
  moreover have "getNotionKey ''/home/u/.config/notion-canvas-sync'' (Some ''secret'') ?fs \<noteq>
      Inl ENOTDIR"
    by (simp add: getNotionKey_def Let_def path_join_def writeFileSync_def existsSync_def
        underRegularFile_def list_ex_iff)
  ultimately show
    "getNotionKey ''/home/u/.config/notion-canvas-sync'' (Some ''secret'') ?fs = Inl ENOENT"
    by blast
  have "\<exists>fs'. getCanvasKey ''/home/u/.config/notion-canvas-sync'' (Some ''secret'') ?fs =
      Inr (''secret'', fs') \<and>
      files fs' (path_join ''/home/u/.config/notion-canvas-sync'' ''canvas.key'') = Some ''secret'' \<and>
      ''/home/u/.config/notion-canvas-sync'' \<in> dirs fs'"
    by (rule canvas_key_creates_directory)
      (simp_all add: existsSync_def path_join_def underRegularFile_def list_ex_iff)
  then show "map_sum id fst
     (getCanvasKey ''/home/u/.config/notion-canvas-sync'' (Some ''secret'') ?fs) = Inr ''secret''"
    by auto
qed

end
